theory Spec2Isabelle
  imports Complex_Main "HOL-Library.AList" "HOL-Library.Product_Lexorder"
    "HOL-Library.Multiset"
begin

section \<open>Python values and documents\<close>

text \<open>
  The documents of the raw collection are Python dicts read through \<open>.get\<close>, so their
  fields are dynamically typed. A dict is an association list in insertion order with
  distinct keys. A Python float is modelled as a real number: the processor only compares
  scores, adds them up and divides by the batch length, so rounding is the one thing the
  model idealises (and NaN and the infinities are left out).
\<close>

datatype pyval =
    VNone
  | VBool bool
  | VInt int
  | VFloat real
  | VStr string
  | VList "pyval list"
  | VDict "(string \<times> pyval) list"

type_synonym doc = "(string \<times> pyval) list"

datatype py_error = ValueError | TypeError | AttributeError | PyMongoError

definition doc_get :: "doc \<Rightarrow> string \<Rightarrow> pyval" where
  \<comment> \<open>\<open>d.get(k)\<close>: None when the key is absent.\<close>
  "doc_get d k = (case map_of d k of None \<Rightarrow> VNone | Some v \<Rightarrow> v)"

fun truthy :: "pyval \<Rightarrow> bool" where
  "truthy VNone = False"
| "truthy (VBool b) = b"
| "truthy (VInt n) = (n \<noteq> 0)"
| "truthy (VFloat r) = (r \<noteq> 0)"
| "truthy (VStr s) = (s \<noteq> [])"
| "truthy (VList xs) = (xs \<noteq> [])"
| "truthy (VDict kvs) = (kvs \<noteq> [])"

definition py_or :: "pyval \<Rightarrow> pyval \<Rightarrow> pyval" where
  \<comment> \<open>\<open>a or b\<close>\<close>
  "py_or a b = (if truthy a then a else b)"

subsection \<open>The built-in \<open>int\<close>\<close>

definition is_space :: "char \<Rightarrow> bool" where
  "is_space c = (c \<in> set [CHR '' '', CHR 0x09, CHR 0x0A, CHR 0x0B, CHR 0x0C, CHR 0x0D])"

definition is_digit :: "char \<Rightarrow> bool" where
  "is_digit c = (48 \<le> (of_char c :: nat) \<and> (of_char c :: nat) \<le> 57)"

definition digit_val :: "char \<Rightarrow> int" where
  "digit_val c = int (of_char c) - 48"

definition strip :: "string \<Rightarrow> string" where
  "strip s = rev (dropWhile is_space (rev (dropWhile is_space s)))"

fun parse_digits :: "string \<Rightarrow> int \<Rightarrow> bool \<Rightarrow> int option" where
  \<comment> \<open>decimal digits, single underscores allowed between two digits\<close>
  "parse_digits [] acc prev = (if prev then Some acc else None)"
| "parse_digits (c # cs) acc prev =
     (if is_digit c then parse_digits cs (10 * acc + digit_val c) True
      else if c = CHR ''_'' \<and> prev then parse_digits cs acc False
      else None)"

definition int_of_str :: "string \<Rightarrow> int option" where
  \<comment> \<open>\<open>int(s)\<close> for an ASCII string in base 10; None where Python raises ValueError\<close>
  "int_of_str s =
     (case strip s of
        [] \<Rightarrow> None
      | c # cs \<Rightarrow>
          if c = CHR ''-'' then map_option uminus (parse_digits cs 0 False)
          else if c = CHR ''+'' then parse_digits cs 0 False
          else parse_digits (c # cs) 0 False)"

fun py_int :: "pyval \<Rightarrow> py_error + int" where
  "py_int (VInt n) = Inr n"
| "py_int (VBool b) = Inr (if b then 1 else 0)"
| "py_int (VFloat r) = Inr (if 0 \<le> r then \<lfloor>r\<rfloor> else \<lceil>r\<rceil>)"
| "py_int (VStr s) = (case int_of_str s of None \<Rightarrow> Inl ValueError | Some n \<Rightarrow> Inr n)"
| "py_int VNone = Inl TypeError"
| "py_int (VList xs) = Inl TypeError"
| "py_int (VDict kvs) = Inl TypeError"

section \<open>The libraries and the world around the processor\<close>

text \<open>
  The VADER analyzer, the parser behind \<open>float(str)\<close> and \<open>datetime.isoformat\<close> are
  libraries outside the repository: they are parameters. A point in time is a number of
  microseconds since the epoch.
\<close>

record lib =
  polarity_scores :: "string \<Rightarrow> (string \<times> real) list"
  float_of_str :: "string \<Rightarrow> real option"
  isoformat :: "nat \<Rightarrow> string"

text \<open>
  What a cycle cannot control: the clock (\<open>clock W n\<close> is what the \<open>n\<close>-th call of
  \<open>datetime.now\<close> returns) and which store operations raise. The operations issued for
  a raw document are identified by that document.
\<close>

record world =
  clock :: "nat \<Rightarrow> nat"
  find_fails :: bool
  upsert_fails :: "doc \<Rightarrow> bool"
  mark_fails :: "doc \<Rightarrow> bool"
  replace_fails :: bool

fun py_float :: "lib \<Rightarrow> pyval \<Rightarrow> py_error + real" where
  "py_float L (VFloat r) = Inr r"
| "py_float L (VInt n) = Inr (of_int n)"
| "py_float L (VBool b) = Inr (if b then 1 else 0)"
| "py_float L (VStr s) = (case float_of_str L s of None \<Rightarrow> Inl ValueError | Some r \<Rightarrow> Inr r)"
| "py_float L VNone = Inl TypeError"
| "py_float L (VList xs) = Inl TypeError"
| "py_float L (VDict kvs) = Inl TypeError"

section \<open>processor.py\<close>

subsection \<open>The documents the processor writes\<close>

record proc_doc =
  product_id :: int
  title :: pyval
  category :: pyval
  price :: real
  avg_rating :: pyval
  rating_count :: pyval
  sentiment_score :: real
  sentiment_label :: string
  last_processed :: string
  timestamp :: int

record entry =
  entry_product_id :: int
  entry_title :: pyval
  entry_score :: real

record insights =
  iid :: string
  generated_at :: string
  top_positive :: "entry list"
  top_negative :: "entry list"
  avg_sentiment :: real

text \<open>
  The three collections, the number of clock reads so far, and the store operations and
  log lines of the run in the order they happened. The processed collection is keyed by
  \<open>product_id\<close>: every write to it is an upsert on that key that sets all ten fields.
\<close>

datatype event =
    EvFind bool
  | EvUpsert int bool
  | EvMark pyval bool
  | EvReplace bool
  | EvLogMarkFailed pyval
  | EvLogMongoError
  | EvLogUnexpected py_error
  | EvLogProcessed nat

record state =
  raw_col :: "doc list"
  proc_col :: "int \<rightharpoonup> proc_doc"
  insights_col :: "insights list"
  ticks :: nat
  trace :: "event list"

subsection \<open>\<open>analyze_product\<close>\<close>

definition analyze_product :: "lib \<Rightarrow> doc \<Rightarrow> py_error + (real \<times> string)" where
  "analyze_product L d =
     (case (py_or (doc_get d ''title'') (VStr []), py_or (doc_get d ''description'') (VStr [])) of
        (VStr t, VStr ds) \<Rightarrow>
          (let text = t @ ''. '' @ ds;
               s = polarity_scores L text;
               score = (case map_of s ''compound'' of None \<Rightarrow> 0 | Some c \<Rightarrow> c);
               label = (if score \<ge> 0.05 then ''positive''
                        else if score \<le> - 0.05 then ''negative''
                        else ''neutral'')
           in Inr (score, label))
      | _ \<Rightarrow> Inl TypeError)"

subsection \<open>The query of \<open>process_batch\<close>\<close>

definition unprocessed :: "doc \<Rightarrow> bool" where
  \<comment> \<open>the filter \<open>{'processed': {'$ne': True}}\<close>; it also matches a document without the field\<close>
  "unprocessed d = (map_of d ''processed'' \<noteq> Some (VBool True))"

definition ingested_key :: "doc \<Rightarrow> nat \<times> real" where
  \<comment> \<open>MongoDB's ascending order on a field: missing and null first, then the numbers by
      value, then every other type (whose relative order is not modelled: the scraper
      stores an integer)\<close>
  "ingested_key d =
     (case map_of d ''ingested_at'' of
        None \<Rightarrow> (0, 0)
      | Some VNone \<Rightarrow> (0, 0)
      | Some (VInt n) \<Rightarrow> (1, of_int n)
      | Some (VFloat r) \<Rightarrow> (1, r)
      | Some _ \<Rightarrow> (2, 0))"

definition select_batch :: "doc list \<Rightarrow> doc list" where
  \<comment> \<open>\<open>raw_col.find({'processed': {'$ne': True}}).sort('ingested_at', 1).limit(500)\<close>\<close>
  "select_batch raw = take 500 (sort_key ingested_key (filter unprocessed raw))"

subsection \<open>One iteration of the loop\<close>

definition source_id :: "doc \<Rightarrow> py_error + int" where
  \<comment> \<open>\<open>int(doc.get('product_id') or doc.get('id') or 0)\<close>\<close>
  "source_id d = py_int (py_or (py_or (doc_get d ''product_id'') (doc_get d ''id'')) (VInt 0))"

definition rating_get :: "doc \<Rightarrow> string \<Rightarrow> py_error + pyval" where
  \<comment> \<open>\<open>doc.get('rating', {}).get(k)\<close>: only a dict has \<open>.get\<close>\<close>
  "rating_get d k =
     (case map_of d ''rating'' of
        None \<Rightarrow> Inr VNone
      | Some (VDict r) \<Rightarrow> Inr (doc_get r k)
      | Some _ \<Rightarrow> Inl AttributeError)"

definition make_proc_doc ::
  "lib \<Rightarrow> doc \<Rightarrow> int \<Rightarrow> real \<Rightarrow> string \<Rightarrow> string \<Rightarrow> int \<Rightarrow> py_error + proc_doc" where
  "make_proc_doc L d pid score label now_iso now_ms =
     (case py_float L (py_or (doc_get d ''price'') (VFloat 0)) of
        Inl e \<Rightarrow> Inl e
      | Inr pr \<Rightarrow>
     (case rating_get d ''rate'' of
        Inl e \<Rightarrow> Inl e
      | Inr rate \<Rightarrow>
     (case rating_get d ''count'' of
        Inl e \<Rightarrow> Inl e
      | Inr cnt \<Rightarrow>
          Inr \<lparr>product_id = pid, title = doc_get d ''title'', category = doc_get d ''category'',
               price = pr, avg_rating = rate, rating_count = cnt,
               sentiment_score = score, sentiment_label = label,
               last_processed = now_iso, timestamp = now_ms\<rparr>)))"

fun update_first :: "('a \<Rightarrow> bool) \<Rightarrow> ('a \<Rightarrow> 'a) \<Rightarrow> 'a list \<Rightarrow> 'a list" where
  \<comment> \<open>\<open>update_one\<close> without upsert: the first match is changed, if there is one\<close>
  "update_first P f [] = []"
| "update_first P f (d # ds) = (if P d then f d # ds else d # update_first P f ds)"

definition mark_processed :: "pyval \<Rightarrow> int \<Rightarrow> doc list \<Rightarrow> doc list" where
  \<comment> \<open>\<open>raw_col.update_one({'_id': oid}, {'$set': {'processed': True, 'processed_at': now_ms}})\<close>\<close>
  "mark_processed oid now_ms raw =
     update_first (\<lambda>d. doc_get d ''_id'' = oid)
       (\<lambda>d. AList.update ''processed_at'' (VInt now_ms) (AList.update ''processed'' (VBool True) d))
       raw"

definition process_doc :: "lib \<Rightarrow> world \<Rightarrow> doc \<Rightarrow> state \<Rightarrow> state \<times> (py_error + proc_doc)" where
  "process_doc L W d st =
     (case source_id d of
        Inl e \<Rightarrow> (st, Inl e)
      | Inr pid \<Rightarrow>
     (case analyze_product L d of
        Inl e \<Rightarrow> (st, Inl e)
      | Inr (score, label) \<Rightarrow>
     (let now_iso = isoformat L (clock W (ticks st));
          now_ms = int (clock W (ticks st + 1) div 1000);
          st1 = st\<lparr>ticks := ticks st + 2\<rparr>
      in case make_proc_doc L d pid score label now_iso now_ms of
           Inl e \<Rightarrow> (st1, Inl e)
         | Inr p \<Rightarrow>
             if upsert_fails W d
             then (st1\<lparr>trace := trace st1 @ [EvUpsert pid False]\<rparr>, Inl PyMongoError)
             else
               (let st2 = st1\<lparr>proc_col := (proc_col st1)(pid \<mapsto> p),
                              trace := trace st1 @ [EvUpsert pid True]\<rparr>;
                    oid = doc_get d ''_id'';
                    st3 = (if mark_fails W d
                           then st2\<lparr>trace := trace st2 @ [EvMark oid False, EvLogMarkFailed oid]\<rparr>
                           else st2\<lparr>raw_col := mark_processed oid now_ms (raw_col st2),
                                    trace := trace st2 @ [EvMark oid True]\<rparr>)
                in (st3, Inr p)))))"

fun process_docs ::
  "lib \<Rightarrow> world \<Rightarrow> doc list \<Rightarrow> state \<Rightarrow> nat \<Rightarrow> proc_doc list
     \<Rightarrow> state \<times> (py_error + nat \<times> proc_doc list)" where
  \<comment> \<open>the \<open>for\<close> loop, with \<open>processed_count\<close> and \<open>all_proc\<close>; an exception leaves it\<close>
  "process_docs L W [] st processed_count all_proc = (st, Inr (processed_count, all_proc))"
| "process_docs L W (d # ds) st processed_count all_proc =
     (case process_doc L W d st of
        (st', Inl e) \<Rightarrow> (st', Inl e)
      | (st', Inr p) \<Rightarrow> process_docs L W ds st' (processed_count + 1) (all_proc @ [p]))"

subsection \<open>The insights and \<open>process_batch\<close>\<close>

definition entry_of :: "proc_doc \<Rightarrow> entry" where
  "entry_of p = \<lparr>entry_product_id = product_id p, entry_title = title p,
                 entry_score = sentiment_score p\<rparr>"

definition make_insights :: "string \<Rightarrow> proc_doc list \<Rightarrow> insights" where
  \<comment> \<open>\<open>sorted(..., reverse=True)\<close> is stable: equal scores keep the batch order;
      \<open>xs[-5:]\<close> is the last five elements, or all of a shorter list\<close>
  "make_insights gen all_proc =
     (let sorted_by_sent = sort_key (\<lambda>x. - sentiment_score x) all_proc
      in \<lparr>iid = ''latest'', generated_at = gen,
          top_positive = map entry_of (take 5 sorted_by_sent),
          top_negative = map entry_of (drop (length sorted_by_sent - 5) sorted_by_sent),
          avg_sentiment = sum_list (map sentiment_score all_proc) / real (length all_proc)\<rparr>)"

fun replace_first :: "('a \<Rightarrow> bool) \<Rightarrow> 'a \<Rightarrow> 'a list \<Rightarrow> 'a list" where
  \<comment> \<open>\<open>replace_one\<close> with \<open>upsert=True\<close>: the first match is replaced, none means insert\<close>
  "replace_first P x [] = [x]"
| "replace_first P x (d # ds) = (if P d then x # ds else d # replace_first P x ds)"

definition log_exception :: "py_error \<Rightarrow> event" where
  \<comment> \<open>the two handlers of \<open>process_batch\<close>\<close>
  "log_exception e = (if e = PyMongoError then EvLogMongoError else EvLogUnexpected e)"

definition process_batch :: "lib \<Rightarrow> world \<Rightarrow> state \<Rightarrow> state" where
  "process_batch L W st =
     (if find_fails W then st\<lparr>trace := trace st @ [EvFind False, EvLogMongoError]\<rparr>
      else
        (let cursor = select_batch (raw_col st);
             st0 = st\<lparr>trace := trace st @ [EvFind True]\<rparr>
         in case process_docs L W cursor st0 0 [] of
              (st1, Inl e) \<Rightarrow> st1\<lparr>trace := trace st1 @ [log_exception e]\<rparr>
            | (st1, Inr (processed_count, all_proc)) \<Rightarrow>
                if all_proc \<noteq> [] then
                  (let ins = make_insights (isoformat L (clock W (ticks st1))) all_proc;
                       st2 = st1\<lparr>ticks := ticks st1 + 1\<rparr>
                   in if replace_fails W
                      then st2\<lparr>trace := trace st2 @ [EvReplace False, EvLogMongoError]\<rparr>
                      else st2\<lparr>insights_col :=
                                 replace_first (\<lambda>x. iid x = ''latest'') ins (insights_col st2),
                               trace := trace st2 @ [EvReplace True, EvLogProcessed processed_count]\<rparr>)
                else st1\<lparr>trace := trace st1 @ [EvLogProcessed processed_count]\<rparr>))"

subsection \<open>\<open>main\<close>\<close>

text \<open>
  \<open>main\<close> calls \<open>process_batch\<close> for ever, sleeping in between. A finite prefix of
  that run is a list of worlds, one for each cycle.
\<close>

fun run_cycles :: "lib \<Rightarrow> world list \<Rightarrow> state \<Rightarrow> state" where
  "run_cycles L [] st = st"
| "run_cycles L (W # Ws) st = run_cycles L Ws (process_batch L W st)"

section \<open>app.py: the daily report\<close>

record report =
  total_posts :: nat
  top_mentions :: "(int \<times> nat) list"
  report_insights :: "insights option"

text \<open>
  What the endpoint reads: the current time and whether each of its three queries raises.
\<close>

record app_world =
  app_now :: nat
  recent_find_fails :: bool
  latest_find_fails :: bool
  any_find_fails :: bool

definition recent :: "int \<Rightarrow> doc \<Rightarrow> bool" where
  \<comment> \<open>the filter \<open>{'ingested_at': {'$gte': since_ms}}\<close>: a number compares with numbers only\<close>
  "recent since_ms d =
     (case map_of d ''ingested_at'' of
        Some (VInt n) \<Rightarrow> since_ms \<le> n
      | Some (VFloat r) \<Rightarrow> of_int since_ms \<le> r
      | _ \<Rightarrow> False)"

fun count_mentions :: "doc list \<Rightarrow> (int \<times> nat) list \<Rightarrow> py_error + (int \<times> nat) list" where
  \<comment> \<open>the loop over \<open>recent_raw\<close>; \<open>counts\<close> keeps the order in which the keys came\<close>
  "count_mentions [] counts = Inr counts"
| "count_mentions (d # ds) counts =
     (case py_int (py_or (doc_get d ''product_id'') (VInt 0)) of
        Inl e \<Rightarrow> Inl e
      | Inr pid \<Rightarrow>
          count_mentions ds
            (AList.update pid ((case map_of counts pid of None \<Rightarrow> 0 | Some c \<Rightarrow> c) + 1) counts))"

definition find_one :: "('a \<Rightarrow> bool) \<Rightarrow> 'a list \<Rightarrow> 'a option" where
  \<comment> \<open>the first match in the collection's own order, None without one\<close>
  "find_one P xs = List.find P xs"

definition api_daily :: "app_world \<Rightarrow> doc list \<Rightarrow> insights list \<Rightarrow> py_error + report" where
  \<comment> \<open>\<open>Inr\<close> is the body of the 200 response, \<open>Inl\<close> the exception behind the 500 response;
      \<open>int\<close> truncates the milliseconds towards zero; a document that \<open>find_one\<close> returns
      has an \<open>_id\<close>, so it is truthy\<close>
  "api_daily A raw ins =
     (let since_us = int (app_now A) - 86400000000;
          since_ms = (if 0 \<le> since_us then since_us div 1000 else - (- since_us div 1000))
      in if recent_find_fails A then Inl PyMongoError
         else
           (let recent_raw = filter (recent since_ms) raw;
                total = length recent_raw
            in case count_mentions recent_raw [] of
                 Inl e \<Rightarrow> Inl e
               | Inr counts \<Rightarrow>
                   (let top = take 10 (sort_key (\<lambda>(k, v). - int v) counts)
                    in if latest_find_fails A then Inl PyMongoError
                       else
                         (case find_one (\<lambda>x. iid x = ''latest'') ins of
                            Some x \<Rightarrow>
                              Inr \<lparr>total_posts = total, top_mentions = top,
                                   report_insights = Some x\<rparr>
                          | None \<Rightarrow>
                              if any_find_fails A then Inl PyMongoError
                              else Inr \<lparr>total_posts = total, top_mentions = top,
                                        report_insights = find_one (\<lambda>x. True) ins\<rparr>))))"

section \<open>What a cycle may change in a raw document\<close>

text \<open>
  \<open>consumption_only d d'\<close>: the document \<open>d'\<close> agrees with \<open>d\<close> on every field but
  \<open>processed\<close> and \<open>processed_at\<close>, and a consumed \<open>d\<close> is still consumed in \<open>d'\<close>.
\<close>

definition consumption_only :: "doc \<Rightarrow> doc \<Rightarrow> bool" where
  "consumption_only d d' =
     ((\<forall>k. k \<noteq> ''processed'' \<and> k \<noteq> ''processed_at'' \<longrightarrow> map_of d' k = map_of d k)
      \<and> (\<not> unprocessed d \<longrightarrow> \<not> unprocessed d'))"

section \<open>Concrete inputs\<close>

definition demo_scores :: "(string \<times> real) list" where
  "demo_scores =
     [(''a. '', 0.9), (''b. '', 0.5), (''c. '', - 0.8), (''d. '', 0.1), (''e. '', - 0.9),
      (''f. '', 0.0), (''g. '', 0.3), (''h. '', - 0.3), (''i. '', 0.7), (''j. '', - 0.1),
      (''k. '', 0.2), (''edge. '', 0.05), (''edge. low'', - 0.05)]"

definition demo_lib :: lib where
  "demo_lib =
     \<lparr>polarity_scores =
        (\<lambda>text. case map_of demo_scores text of None \<Rightarrow> [] | Some c \<Rightarrow> [(''compound'', c)]),
      float_of_str = (\<lambda>s. map_option of_int (int_of_str s)),
      isoformat = (\<lambda>t. ''T'')\<rparr>"

definition quiet_world :: world where
  "quiet_world =
     \<lparr>clock = (\<lambda>n. 1000 * n), find_fails = False, upsert_fails = (\<lambda>d. False),
      mark_fails = (\<lambda>d. False), replace_fails = False\<rparr>"

definition raw_of :: "int \<Rightarrow> string \<Rightarrow> doc" where
  "raw_of i t =
     [(''_id'', VInt i), (''product_id'', VInt i), (''title'', VStr t), (''ingested_at'', VInt i)]"

definition state_of :: "doc list \<Rightarrow> state" where
  "state_of raw = \<lparr>raw_col = raw, proc_col = Map.empty, insights_col = [], ticks = 0, trace = []\<rparr>"

definition consumed_of :: "int \<Rightarrow> string \<Rightarrow> int \<Rightarrow> doc" where
  "consumed_of i t ms = raw_of i t @ [(''processed'', VBool True), (''processed_at'', VInt ms)]"

definition mixed_state :: state where
  "mixed_state = state_of [raw_of 2 ''b'', consumed_of 3 ''c'' 7, raw_of 1 ''a'']"

definition consumed_state :: state where
  "consumed_state = state_of [consumed_of 3 ''c'' 7]"

definition done_state :: state where
  "done_state = state_of [consumed_of 4 ''d'' 7]"

definition mark_down_world :: world where
  "mark_down_world = quiet_world\<lparr>mark_fails := (\<lambda>d. True)\<rparr>"

definition proc_a :: proc_doc where
  "proc_a = \<lparr>product_id = 1, title = VStr ''a'', category = VNone, price = 0,
             avg_rating = VNone, rating_count = VNone, sentiment_score = 0.9,
             sentiment_label = ''positive'', last_processed = ''T'', timestamp = 1\<rparr>"

definition after_first :: state where
  "after_first =
     \<lparr>raw_col = [raw_of 1 ''a''], proc_col = [1 \<mapsto> proc_a], insights_col = [], ticks = 2,
      trace = [EvUpsert 1 True, EvMark (VInt 1) False, EvLogMarkFailed (VInt 1)]\<rparr>"

definition bad_id_doc :: doc where
  "bad_id_doc =
     [(''_id'', VInt 1), (''product_id'', VStr ''abc''), (''title'', VStr ''a''),
      (''ingested_at'', VInt 1)]"

definition bad_id_state :: state where
  "bad_id_state = state_of [bad_id_doc, raw_of 2 ''b'']"

definition no_id_doc :: doc where
  "no_id_doc = [(''_id'', VInt 1), (''id'', VStr []), (''title'', VStr ''a''), (''ingested_at'', VInt 1)]"

definition null_rating_doc :: doc where
  "null_rating_doc =
     [(''_id'', VInt 2), (''product_id'', VInt 2), (''title'', VStr ''b''), (''rating'', VNone),
      (''ingested_at'', VInt 2)]"

definition broken_state :: state where
  "broken_state = state_of [raw_of 1 ''a'', null_rating_doc, raw_of 3 ''c'']"

definition proc_zero :: proc_doc where
  "proc_zero = \<lparr>product_id = 0, title = VStr ''a'', category = VNone, price = 0,
             avg_rating = VNone, rating_count = VNone, sentiment_score = 0.9,
             sentiment_label = ''positive'', last_processed = ''T'', timestamp = 1\<rparr>"

definition after_a :: state where
  "after_a =
     \<lparr>raw_col = [consumed_of 1 ''a'' 1, null_rating_doc, raw_of 3 ''c''],
      proc_col = [1 \<mapsto> proc_a], insights_col = [], ticks = 2,
      trace = [EvFind True, EvUpsert 1 True, EvMark (VInt 1) True]\<rparr>"

definition eleven_state :: state where
  "eleven_state =
     state_of [raw_of 1 ''a'', raw_of 2 ''b'', raw_of 3 ''c'', raw_of 4 ''d'', raw_of 5 ''e'',
               raw_of 6 ''f'', raw_of 7 ''g'', raw_of 8 ''h'', raw_of 9 ''i'', raw_of 10 ''j'',
               raw_of 11 ''k'']"

definition proc_of :: "int \<Rightarrow> string \<Rightarrow> real \<Rightarrow> string \<Rightarrow> proc_doc" where
  "proc_of i t s l =
     \<lparr>product_id = i, title = VStr t, category = VNone, price = 0, avg_rating = VNone,
      rating_count = VNone, sentiment_score = s, sentiment_label = l, last_processed = ''T'',
      timestamp = 2 * i - 1\<rparr>"

definition eleven_procs :: "proc_doc list" where
  "eleven_procs =
     [proc_of 1 ''a'' 0.9 ''positive'', proc_of 2 ''b'' 0.5 ''positive'',
      proc_of 3 ''c'' (- 0.8) ''negative'', proc_of 4 ''d'' 0.1 ''positive'',
      proc_of 5 ''e'' (- 0.9) ''negative'', proc_of 6 ''f'' 0.0 ''neutral'',
      proc_of 7 ''g'' 0.3 ''positive'', proc_of 8 ''h'' (- 0.3) ''negative'',
      proc_of 9 ''i'' 0.7 ''positive'', proc_of 10 ''j'' (- 0.1) ''negative'',
      proc_of 11 ''k'' 0.2 ''positive'']"

definition pair_state :: state where
  "pair_state = state_of [raw_of 1 ''a'', consumed_of 3 ''c'' 7]"

definition stale_doc :: insights where
  "stale_doc = \<lparr>iid = ''2024-01-01'', generated_at = ''T'', top_positive = [],
                top_negative = [], avg_sentiment = 0\<rparr>"

definition calm_app :: app_world where
  "calm_app = \<lparr>app_now = 86400001000, recent_find_fails = False, latest_find_fails = False,
               any_find_fails = False\<rparr>"

text \<open>
  \<open>crowd n\<close> holds \<open>n + 1\<close> unconsumed documents; the oldest one is stored last.
\<close>

definition crowd :: "nat \<Rightarrow> doc list" where
  "crowd n = map (\<lambda>i. raw_of (int i) ''a'') [1..<Suc n] @ [raw_of 0 ''a'']"





section \<open>The sentiment label\<close>

lemma analyze_product_returns:
  assumes "py_or (doc_get d ''title'') (VStr []) = VStr t"
    and "py_or (doc_get d ''description'') (VStr []) = VStr ds"
  shows "\<exists>s l. analyze_product L d = Inr (s, l)"
  using assms by (simp add: analyze_product_def Let_def)

text \<open>
  C6. Whenever \<open>analyze_product\<close> returns a score \<open>s\<close> and a label, the label is positive
  exactly when \<open>s \<ge> 0.05\<close>, negative exactly when \<open>s \<le> -0.05\<close>, and neutral exactly when
  \<open>s\<close> lies strictly between the two thresholds; so \<open>0.05\<close> itself is positive and
  \<open>-0.05\<close> itself is negative.
\<close>

theorem analyze_product_label:
  assumes "analyze_product L d = Inr (s, l)"
  shows "(l = ''positive'' \<longleftrightarrow> s \<ge> 0.05) \<and> (l = ''negative'' \<longleftrightarrow> s \<le> - 0.05)
         \<and> (l = ''neutral'' \<longleftrightarrow> - 0.05 < s \<and> s < 0.05)"
  using assms
  by (auto simp: analyze_product_def Let_def split: pyval.splits if_splits)

theorem analyze_product_label_witness:
  "analyze_product demo_lib [(''title'', VStr ''edge'')] = Inr (0.05, ''positive'')
   \<and> analyze_product demo_lib [(''title'', VStr ''edge''), (''description'', VStr ''low'')]
       = Inr (- 0.05, ''negative'')
   \<and> analyze_product demo_lib [(''title'', VStr ''f'')] = Inr (0, ''neutral'')"
proof -
  have a: "analyze_product demo_lib [(''title'', VStr ''edge'')] = Inr (0.05, ''positive'')"
    by (simp add: analyze_product_def demo_lib_def demo_scores_def doc_get_def py_or_def)
  have b: "analyze_product demo_lib [(''title'', VStr ''edge''), (''description'', VStr ''low'')]
       = Inr (- 0.05, ''negative'')"
    by (simp add: analyze_product_def demo_lib_def demo_scores_def doc_get_def py_or_def)
  have c: "analyze_product demo_lib [(''title'', VStr ''f'')] = Inr (0, ''neutral'')"
    by (simp add: analyze_product_def demo_lib_def demo_scores_def doc_get_def py_or_def)
  from analyze_product_label [OF a] analyze_product_label [OF b] analyze_product_label [OF c] a b c
  show ?thesis by simp
qed

section \<open>The batch selector\<close>

lemma select_batch_length: "length (select_batch raw) \<le> 500"
  by (simp add: select_batch_def)

lemma select_batch_set: "set (select_batch raw) \<subseteq> {d \<in> set raw. unprocessed d}"
proof -
  have "set (select_batch raw) \<subseteq> set (sort_key ingested_key (filter unprocessed raw))"
    unfolding select_batch_def by (rule set_take_subset)
  then show ?thesis by auto
qed

lemma select_batch_sorted: "sorted (map ingested_key (select_batch raw))"
proof -
  have "sorted (take 500 (map ingested_key (sort_key ingested_key (filter unprocessed raw))))"
    by (rule sorted_wrt_take) (rule sorted_sort_key)
  then show ?thesis by (simp add: select_batch_def take_map)
qed

lemma select_batch_empty: "select_batch raw = [] \<longleftrightarrow> (\<forall>d \<in> set raw. \<not> unprocessed d)"
proof -
  have "select_batch raw = [] \<longleftrightarrow> sort_key ingested_key (filter unprocessed raw) = []"
    by (simp add: select_batch_def)
  also have "\<dots> \<longleftrightarrow> filter unprocessed raw = []"
    by (metis length_0_conv length_sort)
  also have "\<dots> \<longleftrightarrow> (\<forall>d \<in> set raw. \<not> unprocessed d)"
    by (simp add: filter_empty_conv)
  finally show ?thesis .
qed

lemma unprocessed_doc_get: "unprocessed d \<longleftrightarrow> doc_get d ''processed'' \<noteq> VBool True"
  by (auto simp: unprocessed_def doc_get_def split: option.splits)

lemma select_batch_oldest_first:
  assumes "i \<le> j" "j < length (select_batch raw)"
    and "map_of (select_batch raw ! i) ''ingested_at'' = Some (VInt a)"
    and "map_of (select_batch raw ! j) ''ingested_at'' = Some (VInt b)"
  shows "a \<le> b"
proof -
  let ?ks = "map ingested_key (select_batch raw)"
  have "?ks ! i \<le> ?ks ! j"
    using select_batch_sorted [of raw] assms(1,2) by (simp add: sorted_nth_mono del: nth_map)
  then have "ingested_key (select_batch raw ! i) \<le> ingested_key (select_batch raw ! j)"
    using assms(1,2) by simp
  then show ?thesis using assms(3,4) by (simp add: ingested_key_def)
qed

lemma select_mixed: "select_batch (raw_col mixed_state) = [raw_of 1 ''a'', raw_of 2 ''b'']"
  by (simp add: mixed_state_def select_batch_def state_of_def raw_of_def consumed_of_def
      unprocessed_def ingested_key_def)

lemma consumed_state_all:
  "\<forall>d \<in> set (raw_col consumed_state). doc_get d ''processed'' = VBool True"
  by (simp add: consumed_state_def state_of_def raw_of_def consumed_of_def doc_get_def)

lemma select_done: "select_batch (raw_col done_state) = []"
  by (simp add: done_state_def select_batch_def state_of_def raw_of_def consumed_of_def
      unprocessed_def)

lemma select_batch_count:
  "length (select_batch raw) = min 500 (length (filter unprocessed raw))"
  by (simp add: select_batch_def min.commute)

lemma select_batch_mset:
  "mset (select_batch raw) + mset (drop 500 (sort_key ingested_key (filter unprocessed raw)))
     = mset (filter unprocessed raw)"
proof -
  let ?xs = "sort_key ingested_key (filter unprocessed raw)"
  have "mset (take 500 ?xs) + mset (drop 500 ?xs) = mset (take 500 ?xs @ drop 500 ?xs)"
    by (simp only: mset_append)
  also have "\<dots> = mset ?xs"
    by (simp only: append_take_drop_id)
  also have "\<dots> = mset (filter unprocessed raw)"
    by (rule mset_sort)
  finally show ?thesis by (simp only: select_batch_def)
qed

lemma select_batch_left_out:
  "mset (filter unprocessed raw) - mset (select_batch raw)
     = mset (drop 500 (sort_key ingested_key (filter unprocessed raw)))"
  using select_batch_mset [of raw] by (metis add_diff_cancel_left')

lemma select_batch_oldest:
  assumes "s \<in> set (select_batch raw)"
    and "d \<in># mset (filter unprocessed raw) - mset (select_batch raw)"
  shows "ingested_key s \<le> ingested_key d"
proof -
  let ?xs = "sort_key ingested_key (filter unprocessed raw)"
  have "sorted_wrt (\<lambda>x y. ingested_key x \<le> ingested_key y) ?xs"
    using sorted_sort_key [of ingested_key "filter unprocessed raw"] by (simp only: sorted_map)
  then have "sorted_wrt (\<lambda>x y. ingested_key x \<le> ingested_key y) (take 500 ?xs @ drop 500 ?xs)"
    by (simp only: append_take_drop_id)
  then have "\<forall>x \<in> set (take 500 ?xs). \<forall>y \<in> set (drop 500 ?xs). ingested_key x \<le> ingested_key y"
    by (simp only: sorted_wrt_append) blast
  moreover have "s \<in> set (take 500 ?xs)"
    using assms(1) by (simp add: select_batch_def)
  moreover have "d \<in> set (drop 500 ?xs)"
    using assms(2) unfolding select_batch_left_out by simp
  ultimately show ?thesis by blast
qed

lemma select_batch_sub: "mset (select_batch raw) \<subseteq># mset (filter unprocessed raw)"
  using select_batch_mset [of raw] by (metis mset_subset_eq_add_left)

lemma unprocessed_raw_of: "unprocessed (raw_of i t)"
  by (simp add: unprocessed_def raw_of_def)

lemma ingested_key_raw_of: "ingested_key (raw_of i t) = (1, of_int i)"
  by (simp add: ingested_key_def raw_of_def)

lemma crowd_unprocessed: "filter unprocessed (crowd n) = crowd n"
  by (simp add: crowd_def unprocessed_raw_of)

lemma crowd_mset: "mset (crowd n) = mset (map (\<lambda>i. raw_of (int i) ''a'') [0..<Suc n])"
proof -
  have "[0..<Suc n] = 0 # [1..<Suc n]"
    by (simp add: upt_conv_Cons del: upt_Suc)
  then show ?thesis
    by (simp add: crowd_def del: upt_Suc)
qed

lemma crowd_inj: "inj_on ingested_key (set (crowd n))"
proof (rule inj_onI)
  fix x y assume "x \<in> set (crowd n)" and "y \<in> set (crowd n)"
    and k: "ingested_key x = ingested_key y"
  have el: "\<exists>i. z = raw_of (int i) ''a''" if "z \<in> set (crowd n)" for z
  proof -
    from that have "z = raw_of (int 0) ''a'' \<or> (\<exists>i. z = raw_of (int i) ''a'')"
      by (auto simp: crowd_def)
    then show ?thesis by blast
  qed
  from el [OF \<open>x \<in> set (crowd n)\<close>] el [OF \<open>y \<in> set (crowd n)\<close>]
  obtain i j where "x = raw_of (int i) ''a''" and "y = raw_of (int j) ''a''"
    by blast
  with k show "x = y"
    by (simp add: ingested_key_raw_of)
qed

lemma crowd_sorted: "sorted (map ingested_key (map (\<lambda>i. raw_of (int i) ''a'') [0..<m]))"
proof -
  have "sorted (map (\<lambda>i. (1::nat, real i)) [0..<m])"
    by (simp add: sorted_wrt_iff_nth_less sorted_map)
  then show ?thesis
    by (simp add: ingested_key_raw_of comp_def)
qed

lemma crowd_sort: "sort_key ingested_key (crowd n) = map (\<lambda>i. raw_of (int i) ''a'') [0..<Suc n]"
  by (rule sort_key_inj_key_eq [OF crowd_mset crowd_inj crowd_sorted])

lemma select_crowd:
  "select_batch (crowd 500) = map (\<lambda>i. raw_of (int i) ''a'') [0..<500]"
proof -
  have "take 500 (map (\<lambda>i. raw_of (int i) ''a'') [0..<Suc 500])
          = map (\<lambda>i. raw_of (int i) ''a'') (take 500 [0..<Suc 500])"
    by (rule take_map)
  also have "take 500 [0..<Suc 500] = [0..<500]"
    by (simp only: take_upt add_0 le_SucI order_refl)
  finally show ?thesis
    by (simp only: select_batch_def crowd_unprocessed crowd_sort)
qed

lemma crowd_left_out:
  "mset (filter unprocessed (crowd 500)) - mset (select_batch (crowd 500)) = {#raw_of 500 ''a''#}"
proof -
  have "[0..<Suc 500] = [0..<500] @ [500]"
    by (rule upt_Suc_append) simp
  then have "mset (map (\<lambda>i. raw_of (int i) ''a'') [0..<Suc 500])
               = mset (map (\<lambda>i. raw_of (int i) ''a'') [0..<500]) + {#raw_of 500 ''a''#}"
    by (simp only: map_append mset_append list.map mset.simps) simp
  then show ?thesis
    by (simp only: crowd_unprocessed select_crowd crowd_mset add_diff_cancel_left')
qed

text \<open>
  C7. The batch selector returns the 500 oldest unconsumed documents of the raw
  collection, or all of them when there are fewer: its length is the smaller of 500 and
  the number of unconsumed documents, every selected document is in the collection with
  \<open>processed\<close> not equal to true, the selection is in ascending order of \<open>ingested_at\<close>,
  and no unconsumed document left out is older than a selected one. It is a function of
  the collection and changes nothing. The selection is empty exactly when every raw
  document is consumed, and a cycle with an empty selection does nothing but the query and
  the log line.
\<close>

theorem select_batch_contract:
  "length (select_batch (raw_col st)) \<le> 500
   \<and> length (select_batch (raw_col st)) = min 500 (length (filter unprocessed (raw_col st)))
   \<and> mset (select_batch (raw_col st)) \<subseteq># mset (filter unprocessed (raw_col st))
   \<and> (\<forall>d \<in> set (select_batch (raw_col st)).
         d \<in> set (raw_col st) \<and> doc_get d ''processed'' \<noteq> VBool True)
   \<and> sorted (map ingested_key (select_batch (raw_col st)))
   \<and> (\<forall>i j a b. i \<le> j \<and> j < length (select_batch (raw_col st))
         \<and> map_of (select_batch (raw_col st) ! i) ''ingested_at'' = Some (VInt a)
         \<and> map_of (select_batch (raw_col st) ! j) ''ingested_at'' = Some (VInt b)
         \<longrightarrow> a \<le> b)
   \<and> (\<forall>s \<in> set (select_batch (raw_col st)).
         \<forall>d \<in># mset (filter unprocessed (raw_col st)) - mset (select_batch (raw_col st)).
           ingested_key s \<le> ingested_key d
           \<and> (\<forall>a b. map_of s ''ingested_at'' = Some (VInt a)
                    \<and> map_of d ''ingested_at'' = Some (VInt b) \<longrightarrow> a \<le> b))
   \<and> (select_batch (raw_col st) = []
         \<longleftrightarrow> (\<forall>d \<in> set (raw_col st). doc_get d ''processed'' = VBool True))
   \<and> (select_batch (raw_col st) = [] \<and> \<not> find_fails W
         \<longrightarrow> process_batch L W st = st\<lparr>trace := trace st @ [EvFind True, EvLogProcessed 0]\<rparr>)"
proof -
  have "\<forall>d \<in> set (select_batch (raw_col st)).
          d \<in> set (raw_col st) \<and> doc_get d ''processed'' \<noteq> VBool True"
    using select_batch_set [of "raw_col st"] by (auto simp: unprocessed_doc_get)
  moreover have "select_batch (raw_col st) = []
         \<longleftrightarrow> (\<forall>d \<in> set (raw_col st). doc_get d ''processed'' = VBool True)"
    by (simp add: select_batch_empty unprocessed_doc_get)
  moreover have "select_batch (raw_col st) = [] \<and> \<not> find_fails W
         \<longrightarrow> process_batch L W st = st\<lparr>trace := trace st @ [EvFind True, EvLogProcessed 0]\<rparr>"
    by (simp add: process_batch_def)
  moreover have "\<forall>i j a b. i \<le> j \<and> j < length (select_batch (raw_col st))
         \<and> map_of (select_batch (raw_col st) ! i) ''ingested_at'' = Some (VInt a)
         \<and> map_of (select_batch (raw_col st) ! j) ''ingested_at'' = Some (VInt b)
         \<longrightarrow> a \<le> b"
    using select_batch_oldest_first by blast
  moreover have "\<forall>s \<in> set (select_batch (raw_col st)).
         \<forall>d \<in># mset (filter unprocessed (raw_col st)) - mset (select_batch (raw_col st)).
           ingested_key s \<le> ingested_key d
           \<and> (\<forall>a b. map_of s ''ingested_at'' = Some (VInt a)
                    \<and> map_of d ''ingested_at'' = Some (VInt b) \<longrightarrow> a \<le> b)"
  proof (intro ballI conjI allI impI)
    fix s d
    assume s: "s \<in> set (select_batch (raw_col st))"
      and d: "d \<in># mset (filter unprocessed (raw_col st)) - mset (select_batch (raw_col st))"
    show k: "ingested_key s \<le> ingested_key d"
      using s d by (rule select_batch_oldest)
    fix a b
    assume "map_of s ''ingested_at'' = Some (VInt a) \<and> map_of d ''ingested_at'' = Some (VInt b)"
    with k show "a \<le> b"
      by (simp add: ingested_key_def)
  qed
  moreover note select_batch_length [of "raw_col st"] select_batch_count [of "raw_col st"]
    select_batch_sub [of "raw_col st"] select_batch_sorted [of "raw_col st"]
  ultimately show ?thesis
    by (intro conjI)
qed

theorem select_batch_contract_witness:
  "select_batch (raw_col mixed_state) = [raw_of 1 ''a'', raw_of 2 ''b'']
   \<and> doc_get (raw_of 1 ''a'') ''processed'' \<noteq> VBool True
   \<and> doc_get (raw_of 2 ''b'') ''processed'' \<noteq> VBool True
   \<and> raw_col consumed_state = [consumed_of 3 ''c'' 7]
   \<and> doc_get (consumed_of 3 ''c'' 7) ''processed'' = VBool True
   \<and> select_batch (raw_col consumed_state) = []
   \<and> \<not> find_fails quiet_world
   \<and> process_batch demo_lib quiet_world consumed_state
       = consumed_state\<lparr>trace := trace consumed_state @ [EvFind True, EvLogProcessed 0]\<rparr>
   \<and> raw_col (state_of (crowd 500)) = crowd 500
   \<and> length (filter unprocessed (crowd 500)) = 501
   \<and> select_batch (crowd 500) = map (\<lambda>i. raw_of (int i) ''a'') [0..<500]
   \<and> length (select_batch (crowd 500)) = 500
   \<and> raw_of 0 ''a'' \<in> set (select_batch (crowd 500))
   \<and> mset (filter unprocessed (crowd 500)) - mset (select_batch (crowd 500))
       = {#raw_of 500 ''a''#}
   \<and> ingested_key (raw_of 0 ''a'') \<le> ingested_key (raw_of 500 ''a'')"
proof -
  note m = select_batch_contract [of mixed_state quiet_world demo_lib]
  note c = select_batch_contract [of consumed_state quiet_world demo_lib]
  note b = select_batch_contract [of "state_of (crowd 500)" quiet_world demo_lib]
  have q: "\<not> find_fails quiet_world"
    by (simp add: quiet_world_def)
  from m have "\<forall>d \<in> set (select_batch (raw_col mixed_state)). doc_get d ''processed'' \<noteq> VBool True"
    by (elim conjE) blast
  then have un: "doc_get (raw_of 1 ''a'') ''processed'' \<noteq> VBool True
      \<and> doc_get (raw_of 2 ''b'') ''processed'' \<noteq> VBool True"
    by (simp add: select_mixed)
  have rc: "raw_col consumed_state = [consumed_of 3 ''c'' 7]"
    by (simp add: consumed_state_def state_of_def)
  with consumed_state_all have cd: "doc_get (consumed_of 3 ''c'' 7) ''processed'' = VBool True"
    by simp
  from c consumed_state_all have e: "select_batch (raw_col consumed_state) = []"
    by (elim conjE) blast
  with c q have pb: "process_batch demo_lib quiet_world consumed_state
       = consumed_state\<lparr>trace := trace consumed_state @ [EvFind True, EvLogProcessed 0]\<rparr>"
    by (elim conjE) blast
  have r: "raw_col (state_of (crowd 500)) = crowd 500"
    by (simp add: state_of_def)
  have n: "length (filter unprocessed (crowd 500)) = 501"
    by (simp only: crowd_unprocessed) (simp add: crowd_def)
  from b have len: "length (select_batch (crowd 500)) = 500"
    unfolding r n by (elim conjE) simp
  have "raw_of (int 0) ''a'' \<in> set (select_batch (crowd 500))"
    unfolding select_crowd set_map by (rule imageI) simp
  then have z: "raw_of 0 ''a'' \<in> set (select_batch (crowd 500))"
    by (simp only: of_nat_0)
  have o: "raw_of 500 ''a'' \<in># mset (filter unprocessed (crowd 500)) - mset (select_batch (crowd 500))"
    by (simp only: crowd_left_out) simp
  from b have "\<forall>s \<in> set (select_batch (crowd 500)).
         \<forall>d \<in># mset (filter unprocessed (crowd 500)) - mset (select_batch (crowd 500)).
           ingested_key s \<le> ingested_key d
           \<and> (\<forall>a b. map_of s ''ingested_at'' = Some (VInt a)
                    \<and> map_of d ''ingested_at'' = Some (VInt b) \<longrightarrow> a \<le> b)"
    unfolding r by (elim conjE)
  with z o have k: "ingested_key (raw_of 0 ''a'') \<le> ingested_key (raw_of 500 ''a'')"
    by blast
  from select_mixed un [THEN conjunct1] un [THEN conjunct2] rc cd e q pb r n select_crowd len z
    crowd_left_out k
  show ?thesis by (intro conjI) assumption+
qed

section \<open>A cycle without a batch\<close>

text \<open>
  C8. A cycle that selects no raw document (the selection is empty, or the query itself
  fails) leaves the processed collection, the insights collection and the raw collection
  as they were: the only things that happen are the query and one log line, so there is
  no upsert, no consumption mark and no snapshot write.
\<close>

theorem empty_cycle_unchanged:
  assumes "find_fails W \<or> select_batch (raw_col st) = []"
  shows "proc_col (process_batch L W st) = proc_col st
         \<and> insights_col (process_batch L W st) = insights_col st
         \<and> raw_col (process_batch L W st) = raw_col st
         \<and> trace (process_batch L W st) = trace st @
             (if find_fails W then [EvFind False, EvLogMongoError]
              else [EvFind True, EvLogProcessed 0])"
  using assms by (auto simp: process_batch_def)

theorem empty_cycle_unchanged_witness:
  "select_batch (raw_col done_state) = []
   \<and> proc_col (process_batch demo_lib quiet_world done_state) = proc_col done_state
   \<and> insights_col (process_batch demo_lib quiet_world done_state) = insights_col done_state
   \<and> raw_col (process_batch demo_lib quiet_world done_state) = raw_col done_state
   \<and> trace (process_batch demo_lib quiet_world done_state)
       = trace done_state @ [EvFind True, EvLogProcessed 0]"
proof -
  have q: "\<not> find_fails quiet_world"
    by (simp add: quiet_world_def)
  from select_done have "find_fails quiet_world \<or> select_batch (raw_col done_state) = []"
    by simp
  from empty_cycle_unchanged [OF this, of demo_lib] q select_done
  show ?thesis by simp
qed

section \<open>One record\<close>

lemma make_proc_doc_fields:
  "make_proc_doc L d pid score label now_iso now_ms = Inr p \<Longrightarrow>
   product_id p = pid \<and> sentiment_score p = score \<and> sentiment_label p = label
   \<and> last_processed p = now_iso \<and> timestamp p = now_ms \<and> title p = doc_get d ''title''"
  by (auto simp: make_proc_doc_def split: sum.splits)

lemma make_proc_doc_time:
  "make_proc_doc L d pid score label now_iso now_ms = Inr p \<Longrightarrow>
   make_proc_doc L d pid score label iso' ms' = Inr (p\<lparr>last_processed := iso', timestamp := ms'\<rparr>)"
  by (auto simp: make_proc_doc_def split: sum.splits)

lemma process_doc_Inr:
  assumes "process_doc L W d st = (st', Inr p)"
  shows "\<exists>score label.
           source_id d = Inr (product_id p) \<and> analyze_product L d = Inr (score, label)
           \<and> make_proc_doc L d (product_id p) score label (isoformat L (clock W (ticks st)))
                (int (clock W (ticks st + 1) div 1000)) = Inr p
           \<and> \<not> upsert_fails W d
           \<and> proc_col st' = (proc_col st)(product_id p \<mapsto> p)
           \<and> insights_col st' = insights_col st"
  using assms
  by (auto simp: process_doc_def Let_def split: sum.splits prod.splits if_splits
      dest: make_proc_doc_fields)

lemma process_doc_Inl:
  assumes "process_doc L W d st = (st', Inl e)"
  shows "proc_col st' = proc_col st \<and> raw_col st' = raw_col st \<and> insights_col st' = insights_col st"
  using assms
  by (auto simp: process_doc_def Let_def split: sum.splits prod.splits if_splits)

lemma process_doc_success:
  assumes "source_id d = Inr pid" "analyze_product L d = Inr (score, label)"
    and "make_proc_doc L d pid score label (isoformat L (clock W (ticks st)))
           (int (clock W (ticks st + 1) div 1000)) = Inr p"
    and "\<not> upsert_fails W d"
  shows "process_doc L W d st =
     (if mark_fails W d
      then st\<lparr>ticks := ticks st + 2, proc_col := (proc_col st)(pid \<mapsto> p),
              trace := trace st @ [EvUpsert pid True, EvMark (doc_get d ''_id'') False,
                                   EvLogMarkFailed (doc_get d ''_id'')]\<rparr>
      else st\<lparr>ticks := ticks st + 2, proc_col := (proc_col st)(pid \<mapsto> p),
              raw_col := mark_processed (doc_get d ''_id'') (int (clock W (ticks st + 1) div 1000))
                           (raw_col st),
              trace := trace st @ [EvUpsert pid True, EvMark (doc_get d ''_id'') True]\<rparr>,
      Inr p)"
  using assms by (simp add: process_doc_def Let_def)


lemma process_doc_Inl_trace:
  assumes "process_doc L W d st = (st', Inl e)"
  shows "trace st' = trace st \<or> (\<exists>k. trace st' = trace st @ [EvUpsert k False])"
  using assms
  by (auto simp: process_doc_def Let_def split: sum.splits prod.splits if_splits)

lemma source_id_raw_of: "source_id (raw_of i t) = Inr i"
  by (simp add: source_id_def raw_of_def doc_get_def py_or_def)

lemma analyze_a: "analyze_product demo_lib (raw_of i ''a'') = Inr (0.9, ''positive'')"
  by (simp add: analyze_product_def raw_of_def demo_lib_def demo_scores_def doc_get_def py_or_def)

lemma make_proc_a:
  "make_proc_doc demo_lib (raw_of 1 ''a'') 1 0.9 ''positive'' ''T'' 1 = Inr proc_a"
  by (simp add: make_proc_doc_def raw_of_def doc_get_def py_or_def rating_get_def proc_a_def)

lemma process_first_a:
  "process_doc demo_lib mark_down_world (raw_of 1 ''a'') (state_of [raw_of 1 ''a''])
     = (after_first, Inr proc_a)"
proof -
  have w: "\<not> upsert_fails mark_down_world (raw_of 1 ''a'')" "mark_fails mark_down_world (raw_of 1 ''a'')"
    by (simp_all add: mark_down_world_def quiet_world_def)
  have m: "make_proc_doc demo_lib (raw_of 1 ''a'') 1 0.9 ''positive''
      (isoformat demo_lib (clock mark_down_world (ticks (state_of [raw_of 1 ''a'']))))
      (int (clock mark_down_world (ticks (state_of [raw_of 1 ''a'']) + 1) div 1000)) = Inr proc_a"
    using make_proc_a by (simp add: demo_lib_def mark_down_world_def quiet_world_def state_of_def)
  have i: "doc_get (raw_of 1 ''a'') ''_id'' = VInt 1"
    by (simp add: raw_of_def doc_get_def)
  note process_doc_success [OF source_id_raw_of analyze_a m w(1)]
  then show ?thesis
    using w i by (simp add: after_first_def state_of_def)
qed

lemma source_id_falsy:
  "\<not> truthy (doc_get d ''product_id'') \<Longrightarrow> \<not> truthy (doc_get d ''id'') \<Longrightarrow> source_id d = Inr 0"
  by (simp add: source_id_def py_or_def)

lemma select_broken:
  "select_batch (raw_col broken_state) = [raw_of 1 ''a'', null_rating_doc, raw_of 3 ''c'']"
  by (simp add: broken_state_def state_of_def select_batch_def unprocessed_def ingested_key_def
      null_rating_doc_def raw_of_def)

lemma broken_first:
  "process_doc demo_lib quiet_world (raw_of 1 ''a'')
     (broken_state\<lparr>trace := trace broken_state @ [EvFind True]\<rparr>) = (after_a, Inr proc_a)"
proof -
  let ?s = "broken_state\<lparr>trace := trace broken_state @ [EvFind True]\<rparr>"
  have w: "\<not> upsert_fails quiet_world (raw_of 1 ''a'')" "\<not> mark_fails quiet_world (raw_of 1 ''a'')"
    by (simp_all add: quiet_world_def)
  have m: "make_proc_doc demo_lib (raw_of 1 ''a'') 1 0.9 ''positive''
      (isoformat demo_lib (clock quiet_world (ticks ?s)))
      (int (clock quiet_world (ticks ?s + 1) div 1000)) = Inr proc_a"
    using make_proc_a by (simp add: demo_lib_def quiet_world_def broken_state_def state_of_def)
  have i: "doc_get (raw_of 1 ''a'') ''_id'' = VInt 1"
    by (simp add: raw_of_def doc_get_def)
  have k: "mark_processed (VInt 1) 1 (raw_col ?s)
             = [consumed_of 1 ''a'' 1, null_rating_doc, raw_of 3 ''c'']"
    by (simp add: mark_processed_def broken_state_def state_of_def raw_of_def doc_get_def
        consumed_of_def)
  have c: "int (clock quiet_world (ticks ?s + 1) div 1000) = 1"
    by (simp add: quiet_world_def broken_state_def state_of_def)
  note process_doc_success [OF source_id_raw_of analyze_a m w(1)]
  then show ?thesis
    using w i c k by (simp add: after_a_def) (simp add: broken_state_def state_of_def)
qed

lemma broken_second:
  "process_doc demo_lib quiet_world null_rating_doc after_a
     = (after_a\<lparr>ticks := 4\<rparr>, Inl AttributeError)"
  by (simp add: process_doc_def source_id_def analyze_product_def make_proc_doc_def
      rating_get_def null_rating_doc_def doc_get_def py_or_def demo_lib_def demo_scores_def
      after_a_def)

text \<open>
  C5. When a raw document has been processed once, processing the same document again
  (in any later state and with any clock, the upsert not failing) succeeds and yields the
  same processed document except for \<open>last_processed\<close> and \<open>timestamp\<close>, stored under
  the same key.
\<close>

theorem reprocess_same_document:
  assumes "process_doc L W1 d st = (st1, Inr p1)" and "\<not> upsert_fails W2 d"
  shows "snd (process_doc L W2 d st') =
           Inr (p1\<lparr>last_processed := isoformat L (clock W2 (ticks st')),
                   timestamp := int (clock W2 (ticks st' + 1) div 1000)\<rparr>)
         \<and> proc_col st1 (product_id p1) = Some p1
         \<and> proc_col (fst (process_doc L W2 d st')) (product_id p1) =
             Some (p1\<lparr>last_processed := isoformat L (clock W2 (ticks st')),
                      timestamp := int (clock W2 (ticks st' + 1) div 1000)\<rparr>)"
proof -
  from process_doc_Inr [OF assms(1)] obtain score label where
    sid: "source_id d = Inr (product_id p1)" and an: "analyze_product L d = Inr (score, label)"
    and mk: "make_proc_doc L d (product_id p1) score label (isoformat L (clock W1 (ticks st)))
                (int (clock W1 (ticks st + 1) div 1000)) = Inr p1"
    and pc: "proc_col st1 = (proc_col st)(product_id p1 \<mapsto> p1)"
    by blast
  let ?p2 = "p1\<lparr>last_processed := isoformat L (clock W2 (ticks st')),
                timestamp := int (clock W2 (ticks st' + 1) div 1000)\<rparr>"
  have mk2: "make_proc_doc L d (product_id p1) score label (isoformat L (clock W2 (ticks st')))
                (int (clock W2 (ticks st' + 1) div 1000)) = Inr ?p2"
    by (rule make_proc_doc_time [OF mk])
  have "snd (process_doc L W2 d st') = Inr ?p2
        \<and> proc_col (fst (process_doc L W2 d st')) (product_id p1) = Some ?p2"
    by (simp add: process_doc_success [OF sid an mk2 assms(2)])
  with pc show ?thesis by simp
qed

theorem reprocess_same_document_witness:
  "process_doc demo_lib mark_down_world (raw_of 1 ''a'') (state_of [raw_of 1 ''a''])
     = (after_first, Inr proc_a)
   \<and> \<not> upsert_fails quiet_world (raw_of 1 ''a'')
   \<and> snd (process_doc demo_lib quiet_world (raw_of 1 ''a'') after_first)
       = Inr (proc_a\<lparr>last_processed := ''T'', timestamp := 3\<rparr>)
   \<and> proc_col after_first 1 = Some proc_a
   \<and> proc_col (fst (process_doc demo_lib quiet_world (raw_of 1 ''a'') after_first)) 1
       = Some (proc_a\<lparr>last_processed := ''T'', timestamp := 3\<rparr>)"
proof -
  have u: "\<not> upsert_fails quiet_world (raw_of 1 ''a'')"
    by (simp add: quiet_world_def)
  have t: "isoformat demo_lib (clock quiet_world (ticks after_first)) = ''T''"
    "int (clock quiet_world (ticks after_first + 1) div 1000) = 3"
    "product_id proc_a = 1"
    by (simp_all add: demo_lib_def quiet_world_def after_first_def proc_a_def)
  from reprocess_same_document [OF process_first_a u, of after_first] process_first_a u
  show ?thesis by (simp only: t) simp
qed

section \<open>The source id\<close>

text \<open>
  C3, as amended. When the fields \<open>product_id\<close> and \<open>id\<close> of a raw document are both
  absent or falsy (None, 0, the empty string, ...), the id is 0; and if the rest of the
  transformation and the upsert succeed, the record is processed and stored under key 0.
\<close>

theorem missing_id_is_zero:
  assumes "\<not> truthy (doc_get d ''product_id'')" and "\<not> truthy (doc_get d ''id'')"
  shows "source_id d = Inr 0
         \<and> (analyze_product L d = Inr (score, label)
              \<and> make_proc_doc L d 0 score label (isoformat L (clock W (ticks st)))
                   (int (clock W (ticks st + 1) div 1000)) = Inr p
              \<and> \<not> upsert_fails W d
            \<longrightarrow> snd (process_doc L W d st) = Inr p \<and> product_id p = 0
                \<and> proc_col (fst (process_doc L W d st)) 0 = Some p)"
proof -
  have sid: "source_id d = Inr 0"
    using assms by (rule source_id_falsy)
  show ?thesis
  proof (intro conjI impI)
    show "source_id d = Inr 0" by (rule sid)
  next
    assume a: "analyze_product L d = Inr (score, label)
              \<and> make_proc_doc L d 0 score label (isoformat L (clock W (ticks st)))
                   (int (clock W (ticks st + 1) div 1000)) = Inr p
              \<and> \<not> upsert_fails W d"
    then have ok: "process_doc L W d st =
       (if mark_fails W d
        then st\<lparr>ticks := ticks st + 2, proc_col := (proc_col st)(0 \<mapsto> p),
              trace := trace st @ [EvUpsert 0 True, EvMark (doc_get d ''_id'') False,
                                   EvLogMarkFailed (doc_get d ''_id'')]\<rparr>
        else st\<lparr>ticks := ticks st + 2, proc_col := (proc_col st)(0 \<mapsto> p),
              raw_col := mark_processed (doc_get d ''_id'') (int (clock W (ticks st + 1) div 1000))
                           (raw_col st),
              trace := trace st @ [EvUpsert 0 True, EvMark (doc_get d ''_id'') True]\<rparr>,
        Inr p)"
      using process_doc_success [OF sid, of L score label W st p] by blast
    show "snd (process_doc L W d st) = Inr p" by (simp add: ok)
    show "product_id p = 0" using a make_proc_doc_fields by blast
    show "proc_col (fst (process_doc L W d st)) 0 = Some p" by (simp add: ok)
  qed
qed

theorem missing_id_is_zero_witness:
  "\<not> truthy (doc_get no_id_doc ''product_id'') \<and> \<not> truthy (doc_get no_id_doc ''id'')
   \<and> source_id no_id_doc = Inr 0
   \<and> snd (process_doc demo_lib quiet_world no_id_doc (state_of [no_id_doc])) = Inr proc_zero
   \<and> proc_col (fst (process_doc demo_lib quiet_world no_id_doc (state_of [no_id_doc]))) 0
       = Some proc_zero"
proof -
  have f: "\<not> truthy (doc_get no_id_doc ''product_id'')" "\<not> truthy (doc_get no_id_doc ''id'')"
    by (simp_all add: no_id_doc_def doc_get_def)
  have an: "analyze_product demo_lib no_id_doc = Inr (0.9, ''positive'')"
    by (simp add: analyze_product_def no_id_doc_def demo_lib_def demo_scores_def doc_get_def py_or_def)
  have mk: "make_proc_doc demo_lib no_id_doc 0 0.9 ''positive''
      (isoformat demo_lib (clock quiet_world (ticks (state_of [no_id_doc]))))
      (int (clock quiet_world (ticks (state_of [no_id_doc]) + 1) div 1000)) = Inr proc_zero"
    by (simp add: make_proc_doc_def no_id_doc_def doc_get_def py_or_def rating_get_def proc_zero_def
        demo_lib_def quiet_world_def state_of_def)
  have u: "\<not> upsert_fails quiet_world no_id_doc"
    by (simp add: quiet_world_def)
  from missing_id_is_zero [OF f, of demo_lib "0.9" "''positive''" quiet_world "state_of [no_id_doc]" proc_zero]
    f an mk u
  show ?thesis by blast
qed

text \<open>
  C3 as stated fails: with the non-numeric string \<open>abc\<close> as \<open>product_id\<close>, \<open>int\<close> raises
  ValueError, the handler of \<open>process_batch\<close> logs it, and neither this record nor the
  well-formed one after it is processed.
\<close>

theorem malformed_id_counterexample:
  "source_id bad_id_doc = Inl ValueError
   \<and> select_batch (raw_col bad_id_state) = [bad_id_doc, raw_of 2 ''b'']
   \<and> process_batch demo_lib quiet_world bad_id_state
       = bad_id_state\<lparr>trace := [EvFind True, EvLogUnexpected ValueError]\<rparr>
   \<and> proc_col bad_id_state = Map.empty"
proof -
  have s: "source_id bad_id_doc = Inl ValueError"
    by (simp add: source_id_def bad_id_doc_def doc_get_def py_or_def int_of_str_def strip_def
        is_space_def is_digit_def)
  have sel: "select_batch (raw_col bad_id_state) = [bad_id_doc, raw_of 2 ''b'']"
    by (simp add: bad_id_state_def state_of_def select_batch_def unprocessed_def ingested_key_def
        bad_id_doc_def raw_of_def)
  have "process_batch demo_lib quiet_world bad_id_state
       = bad_id_state\<lparr>trace := [EvFind True, EvLogUnexpected ValueError]\<rparr>"
    by (simp add: process_batch_def sel process_doc_def s quiet_world_def log_exception_def)
       (simp add: bad_id_state_def state_of_def)
  moreover have "proc_col bad_id_state = Map.empty"
    by (simp add: bad_id_state_def state_of_def)
  ultimately show ?thesis using s sel by simp
qed

section \<open>A failing record\<close>

text \<open>
  C2, as amended. In a batch of three records where the first is processed and the second
  fails (in the transformation or in the upsert), the exception ends the loop: the cycle
  ends in the state the second record left, plus one log line of the handler of
  \<open>process_batch\<close>. The first record stays upserted, the third is never touched, and no
  insights are written.
\<close>

theorem failure_ends_cycle:
  assumes "\<not> find_fails W" and "select_batch (raw_col st) = [d1, d2, d3]"
    and "process_doc L W d1 (st\<lparr>trace := trace st @ [EvFind True]\<rparr>) = (st1, Inr p1)"
    and "process_doc L W d2 st1 = (st2, Inl e)"
  shows "process_batch L W st = st2\<lparr>trace := trace st2 @ [log_exception e]\<rparr>
         \<and> proc_col (process_batch L W st) = (proc_col st)(product_id p1 \<mapsto> p1)
         \<and> insights_col (process_batch L W st) = insights_col st
         \<and> (trace (process_batch L W st) = trace st1 @ [log_exception e]
            \<or> (\<exists>k. trace (process_batch L W st)
                  = trace st1 @ [EvUpsert k False, log_exception e]))"
proof -
  have pb: "process_batch L W st = st2\<lparr>trace := trace st2 @ [log_exception e]\<rparr>"
    using assms by (simp add: process_batch_def)
  from process_doc_Inr [OF assms(3)]
  have one: "proc_col st1 = (proc_col st)(product_id p1 \<mapsto> p1)" "insights_col st1 = insights_col st"
    by auto
  from process_doc_Inl [OF assms(4)]
  have two: "proc_col st2 = proc_col st1" "insights_col st2 = insights_col st1"
    by auto
  from process_doc_Inl_trace [OF assms(4)]
  have tr: "trace st2 = trace st1 \<or> (\<exists>k. trace st2 = trace st1 @ [EvUpsert k False])" .
  show ?thesis
    using one two tr by (auto simp: pb)
qed

theorem failure_ends_cycle_witness:
  "\<not> find_fails quiet_world
   \<and> select_batch (raw_col broken_state) = [raw_of 1 ''a'', null_rating_doc, raw_of 3 ''c'']
   \<and> process_doc demo_lib quiet_world (raw_of 1 ''a'')
        (broken_state\<lparr>trace := trace broken_state @ [EvFind True]\<rparr>) = (after_a, Inr proc_a)
   \<and> process_doc demo_lib quiet_world null_rating_doc after_a
        = (after_a\<lparr>ticks := 4\<rparr>, Inl AttributeError)
   \<and> process_batch demo_lib quiet_world broken_state
        = after_a\<lparr>ticks := 4, trace := trace after_a @ [EvLogUnexpected AttributeError]\<rparr>
   \<and> proc_col (process_batch demo_lib quiet_world broken_state) = [1 \<mapsto> proc_a]
   \<and> insights_col (process_batch demo_lib quiet_world broken_state) = []"
proof -
  have q: "\<not> find_fails quiet_world"
    by (simp add: quiet_world_def)
  have l: "log_exception AttributeError = EvLogUnexpected AttributeError"
    by (simp add: log_exception_def)
  have p: "(proc_col broken_state)(product_id proc_a \<mapsto> proc_a) = [1 \<mapsto> proc_a]"
    "insights_col broken_state = []"
    by (simp_all add: broken_state_def state_of_def proc_a_def)
  from failure_ends_cycle [OF q select_broken broken_first broken_second]
    q select_broken broken_first broken_second
  show ?thesis by (simp add: l p) (simp add: after_a_def)
qed

text \<open>
  C2 as stated fails: the second of three records has \<open>rating\<close> null, so \<open>.get\<close> on it
  raises AttributeError; the third record is not upserted and no insights are written.
\<close>

theorem partial_batch_counterexample:
  "select_batch (raw_col broken_state) = [raw_of 1 ''a'', null_rating_doc, raw_of 3 ''c'']
   \<and> snd (process_doc demo_lib quiet_world null_rating_doc after_a) = Inl AttributeError
   \<and> proc_col (process_batch demo_lib quiet_world broken_state) 3 = None
   \<and> insights_col (process_batch demo_lib quiet_world broken_state) = []
   \<and> trace (process_batch demo_lib quiet_world broken_state)
       = [EvFind True, EvUpsert 1 True, EvMark (VInt 1) True, EvLogUnexpected AttributeError]"
proof -
  have q: "\<not> find_fails quiet_world"
    by (simp add: quiet_world_def)
  have "process_batch demo_lib quiet_world broken_state
        = after_a\<lparr>ticks := 4, trace := trace after_a @ [EvLogUnexpected AttributeError]\<rparr>"
    by (simp add: process_batch_def q select_broken broken_first broken_second log_exception_def)
  then show ?thesis
    using select_broken broken_second by (simp add: after_a_def)
qed

section \<open>The raw collection over the cycles\<close>

lemma consumption_only_refl: "consumption_only d d"
  by (simp add: consumption_only_def)

lemma consumption_only_trans:
  "consumption_only a b \<Longrightarrow> consumption_only b c \<Longrightarrow> consumption_only a c"
  by (simp add: consumption_only_def)

lemma consumption_only_mark:
  "consumption_only d
     (AList.update ''processed_at'' (VInt ms) (AList.update ''processed'' (VBool True) d))"
  by (simp add: consumption_only_def unprocessed_def update_conv')

lemma raw_frame_refl: "list_all2 consumption_only raw raw"
  by (rule list_all2_refl) (rule consumption_only_refl)

lemma raw_frame_trans:
  "list_all2 consumption_only a b \<Longrightarrow> list_all2 consumption_only b c \<Longrightarrow>
   list_all2 consumption_only a c"
  by (rule list_all2_trans [of consumption_only consumption_only consumption_only])
     (rule consumption_only_trans)

lemma raw_frame_mark: "list_all2 consumption_only raw (mark_processed oid ms raw)"
  unfolding mark_processed_def
  by (induction raw) (simp_all add: consumption_only_mark consumption_only_refl raw_frame_refl)

lemma process_doc_raw:
  "raw_col (fst (process_doc L W d st)) = raw_col st
   \<or> (\<exists>oid ms. raw_col (fst (process_doc L W d st)) = mark_processed oid ms (raw_col st))"
  by (auto simp: process_doc_def Let_def split: sum.splits prod.splits if_splits)

lemma process_doc_frame:
  "list_all2 consumption_only (raw_col st) (raw_col (fst (process_doc L W d st)))"
  using process_doc_raw [of L W d st] by (auto simp: raw_frame_refl raw_frame_mark)

lemma process_docs_frame:
  "list_all2 consumption_only (raw_col st) (raw_col (fst (process_docs L W ds st n acc)))"
proof (induction ds arbitrary: st n acc)
  case Nil
  show ?case by (simp add: raw_frame_refl)
next
  case (Cons d ds)
  obtain st' r where pd: "process_doc L W d st = (st', r)"
    by (cases "process_doc L W d st")
  have step: "list_all2 consumption_only (raw_col st) (raw_col st')"
    using process_doc_frame [of st L W d] by (simp add: pd)
  show ?case
  proof (cases r)
    case (Inl e)
    then show ?thesis using step by (simp add: pd)
  next
    case (Inr p)
    have "list_all2 consumption_only (raw_col st')
            (raw_col (fst (process_docs L W ds st' (n + 1) (acc @ [p]))))"
      by (rule Cons.IH)
    with step show ?thesis
      by (simp add: pd Inr raw_frame_trans)
  qed
qed

lemma process_batch_raw:
  "raw_col (process_batch L W st) = raw_col st
   \<or> raw_col (process_batch L W st) =
       raw_col (fst (process_docs L W (select_batch (raw_col st))
                       (st\<lparr>trace := trace st @ [EvFind True]\<rparr>) 0 []))"
  by (auto simp: process_batch_def Let_def split: prod.splits sum.splits)

lemma process_batch_frame:
  "list_all2 consumption_only (raw_col st) (raw_col (process_batch L W st))"
proof -
  have "list_all2 consumption_only (raw_col (st\<lparr>trace := trace st @ [EvFind True]\<rparr>))
     (raw_col (fst (process_docs L W (select_batch (raw_col st))
                       (st\<lparr>trace := trace st @ [EvFind True]\<rparr>) 0 [])))"
    by (rule process_docs_frame)
  then show ?thesis
    using process_batch_raw [of L W st] by (auto simp: raw_frame_refl)
qed

lemma run_cycles_frame:
  "list_all2 consumption_only (raw_col st) (raw_col (run_cycles L Ws st))"
proof (induction Ws arbitrary: st)
  case Nil
  show ?case by (simp add: raw_frame_refl)
next
  case (Cons W Ws)
  from process_batch_frame [of st L W] Cons.IH [of "process_batch L W st"]
  show ?case by (simp add: raw_frame_trans)
qed

lemma select_batch_unprocessed: "d \<in> set (select_batch raw) \<Longrightarrow> unprocessed d"
  using select_batch_set [of raw] by auto

lemma run_pair:
  "raw_col (run_cycles demo_lib [quiet_world] pair_state)
     = [consumed_of 1 ''a'' 1, consumed_of 3 ''c'' 7]"
  by (simp add: pair_state_def state_of_def process_batch_def select_batch_def unprocessed_def
      ingested_key_def process_doc_def source_id_def analyze_product_def make_proc_doc_def
      rating_get_def mark_processed_def doc_get_def py_or_def raw_of_def consumed_of_def
      demo_lib_def demo_scores_def quiet_world_def Let_def)

text \<open>
  C9. After any number of cycles the raw collection has the same documents at the same
  positions, each with every field other than \<open>processed\<close> and \<open>processed_at\<close> as it
  was; and a document whose \<open>processed\<close> flag was true keeps the flag and is not in the
  selection of the next cycle.
\<close>

theorem raw_only_consumption_changes:
  "length (raw_col (run_cycles L Ws st)) = length (raw_col st)
   \<and> (\<forall>i < length (raw_col st).
        (\<forall>k. k \<noteq> ''processed'' \<and> k \<noteq> ''processed_at'' \<longrightarrow>
             map_of (raw_col (run_cycles L Ws st) ! i) k = map_of (raw_col st ! i) k)
        \<and> (doc_get (raw_col st ! i) ''processed'' = VBool True \<longrightarrow>
             doc_get (raw_col (run_cycles L Ws st) ! i) ''processed'' = VBool True
             \<and> raw_col (run_cycles L Ws st) ! i
                 \<notin> set (select_batch (raw_col (run_cycles L Ws st)))))"
proof -
  let ?raw = "raw_col st" and ?raw' = "raw_col (run_cycles L Ws st)"
  have fr: "list_all2 consumption_only ?raw ?raw'"
    by (rule run_cycles_frame)
  then have len: "length ?raw' = length ?raw"
    by (simp add: list_all2_lengthD)
  have "\<forall>i < length ?raw.
        (\<forall>k. k \<noteq> ''processed'' \<and> k \<noteq> ''processed_at'' \<longrightarrow> map_of (?raw' ! i) k = map_of (?raw ! i) k)
        \<and> (doc_get (?raw ! i) ''processed'' = VBool True \<longrightarrow>
             doc_get (?raw' ! i) ''processed'' = VBool True
             \<and> ?raw' ! i \<notin> set (select_batch ?raw'))"
  proof (intro allI impI)
    fix i assume "i < length ?raw"
    with fr have c: "consumption_only (?raw ! i) (?raw' ! i)"
      by (rule list_all2_nthD)
    show "(\<forall>k. k \<noteq> ''processed'' \<and> k \<noteq> ''processed_at'' \<longrightarrow> map_of (?raw' ! i) k = map_of (?raw ! i) k)
        \<and> (doc_get (?raw ! i) ''processed'' = VBool True \<longrightarrow>
             doc_get (?raw' ! i) ''processed'' = VBool True
             \<and> ?raw' ! i \<notin> set (select_batch ?raw'))"
      using c select_batch_unprocessed [of "?raw' ! i" ?raw']
      by (auto simp: consumption_only_def unprocessed_doc_get)
  qed
  with len show ?thesis by blast
qed

theorem raw_only_consumption_changes_witness:
  "raw_col pair_state = [raw_of 1 ''a'', consumed_of 3 ''c'' 7]
   \<and> raw_col (run_cycles demo_lib [quiet_world] pair_state)
       = [consumed_of 1 ''a'' 1, consumed_of 3 ''c'' 7]
   \<and> map_of (consumed_of 1 ''a'' 1) ''title'' = map_of (raw_of 1 ''a'') ''title''
   \<and> doc_get (consumed_of 3 ''c'' 7) ''processed'' = VBool True
   \<and> consumed_of 3 ''c'' 7 \<notin> set (select_batch (raw_col (run_cycles demo_lib [quiet_world] pair_state)))"
proof -
  let ?raw' = "raw_col (run_cycles demo_lib [quiet_world] pair_state)"
  note T = raw_only_consumption_changes [of demo_lib "[quiet_world]" pair_state]
  have r: "raw_col pair_state = [raw_of 1 ''a'', consumed_of 3 ''c'' 7]"
    by (simp add: pair_state_def state_of_def)
  have c: "doc_get (consumed_of 3 ''c'' 7) ''processed'' = VBool True"
    by (simp add: consumed_of_def raw_of_def doc_get_def)
  have n: "''title'' \<noteq> ''processed'' \<and> ''title'' \<noteq> ''processed_at''"
    by simp
  have l: "0 < length (raw_col pair_state)" "1 < length (raw_col pair_state)"
    by (simp_all add: r)
  note T0 = T [THEN conjunct2, rule_format, OF l(1)]
  note T1 = T [THEN conjunct2, rule_format, OF l(2)]
  have "map_of (?raw' ! 0) ''title'' = map_of (raw_col pair_state ! 0) ''title''"
    by (rule T0 [THEN conjunct1, rule_format, OF n])
  then have t: "map_of (consumed_of 1 ''a'' 1) ''title'' = map_of (raw_of 1 ''a'') ''title''"
    unfolding r run_pair by simp
  have c1: "doc_get (raw_col pair_state ! 1) ''processed'' = VBool True"
    using c by (simp add: r)
  have "?raw' ! 1 \<notin> set (select_batch ?raw')"
    by (rule T1 [THEN conjunct2, rule_format, OF c1, THEN conjunct2])
  then have s: "consumed_of 3 ''c'' 7 \<notin> set (select_batch ?raw')"
    unfolding run_pair by simp
  from r run_pair t c s show ?thesis by (simp only: simp_thms)
qed

section \<open>The daily report\<close>

lemma find_one_none: "\<not> (\<exists>x \<in> set xs. P x) \<Longrightarrow> find_one P xs = None"
  by (simp add: find_one_def find_None_iff)

lemma find_one_any: "find_one (\<lambda>x. True) xs = (case xs of [] \<Rightarrow> None | x # _ \<Rightarrow> Some x)"
  by (cases xs) (simp_all add: find_one_def)

text \<open>
  C10. When the insights collection holds no document with id \<open>latest\<close>, a successful
  daily report does not say so: its \<open>insights\<close> field is the first document of the
  collection, whatever its id, and null only when the collection is empty.
\<close>

theorem daily_report_fallback:
  assumes "\<not> (\<exists>x \<in> set ins. iid x = ''latest'')" and "api_daily A raw ins = Inr r"
  shows "report_insights r = (case ins of [] \<Rightarrow> None | x # _ \<Rightarrow> Some x)"
proof -
  have none: "find_one (\<lambda>x. iid x = ''latest'') ins = None"
    using assms(1) by (rule find_one_none)
  from assms(2) have "report_insights r = find_one (\<lambda>x. True) ins"
    by (auto simp: api_daily_def Let_def none split: if_splits sum.splits)
  then show ?thesis by (simp add: find_one_any)
qed

theorem daily_report_fallback_witness:
  "iid stale_doc \<noteq> ''latest''
   \<and> api_daily calm_app [raw_of 1 ''a''] [stale_doc]
       = Inr \<lparr>total_posts = 1, top_mentions = [(1, 1)], report_insights = Some stale_doc\<rparr>
   \<and> api_daily calm_app [raw_of 1 ''a''] [] 
       = Inr \<lparr>total_posts = 1, top_mentions = [(1, 1)], report_insights = None\<rparr>"
proof -
  have i: "iid stale_doc \<noteq> ''latest''"
    by (simp add: stale_doc_def)
  then have h: "\<not> (\<exists>x \<in> set [stale_doc]. iid x = ''latest'')"
    by simp
  have a: "api_daily calm_app [raw_of 1 ''a''] [stale_doc]
       = Inr \<lparr>total_posts = 1, top_mentions = [(1, 1)], report_insights = Some stale_doc\<rparr>"
    using i by (simp add: api_daily_def calm_app_def recent_def raw_of_def doc_get_def py_or_def
        find_one_def)
  have b: "api_daily calm_app [raw_of 1 ''a''] [] 
       = Inr \<lparr>total_posts = 1, top_mentions = [(1, 1)], report_insights = None\<rparr>"
    by (simp add: api_daily_def calm_app_def recent_def raw_of_def doc_get_def py_or_def
        find_one_def)
  from daily_report_fallback [OF h a] i a b show ?thesis by simp
qed

section \<open>The insights of a batch\<close>

lemma map_insort_key: "map f (insort_key f x xs) = insort (f x) (map f xs)"
  by (induction xs) simp_all

lemma map_sort_key: "map f (sort_key f xs) = sort (map f xs)"
  by (induction xs) (simp_all add: map_insort_key)

lemma scores_sorted_desc:
  "map sentiment_score (sort_key (\<lambda>x. - sentiment_score x) ps)
     = map uminus (sort (map uminus (map sentiment_score ps)))"
proof -
  have "map (\<lambda>x. - sentiment_score x) (sort_key (\<lambda>x. - sentiment_score x) ps)
          = sort (map (\<lambda>x. - sentiment_score x) ps)"
    by (rule map_sort_key)
  then have "map uminus (map (\<lambda>x. - sentiment_score x) (sort_key (\<lambda>x. - sentiment_score x) ps))
          = map uminus (sort (map (\<lambda>x. - sentiment_score x) ps))"
    by simp
  then show ?thesis by (simp add: comp_def)
qed

lemma entry_scores: "map entry_score (map entry_of ps) = map sentiment_score ps"
  by (simp add: entry_of_def comp_def)

lemma find_replace_first: "P x \<Longrightarrow> find_one P (replace_first P x xs) = Some x"
  by (induction xs) (simp_all add: find_one_def)

lemma eleven_sorted:
  "sort (map uminus [0.9, 0.5, - 0.8, 0.1, - 0.9, 0.0, 0.3, - 0.3, 0.7, - 0.1, 0.2 :: real])
     = [- 0.9, - 0.7, - 0.5, - 0.3, - 0.2, - 0.1, 0, 0.1, 0.3, 0.8, 0.9]"
  by simp

lemma make_insights_eleven:
  assumes "map sentiment_score ps = [0.9, 0.5, - 0.8, 0.1, - 0.9, 0.0, 0.3, - 0.3, 0.7, - 0.1, 0.2]"
  shows "map entry_score (top_positive (make_insights g ps)) = [0.9, 0.7, 0.5, 0.3, 0.2]"
    and "map entry_score (top_negative (make_insights g ps)) = [0.0, - 0.1, - 0.3, - 0.8, - 0.9]"
    and "avg_sentiment (make_insights g ps)
           = (0.9 + 0.5 + - 0.8 + 0.1 + - 0.9 + 0.0 + 0.3 + - 0.3 + 0.7 + - 0.1 + 0.2) / 11"
    and "iid (make_insights g ps) = ''latest''"
proof -
  let ?s = "sort_key (\<lambda>x. - sentiment_score x) ps"
  have len: "length ps = 11"
    using arg_cong [OF assms, of length] by simp
  have sc: "map sentiment_score ?s = [0.9, 0.7, 0.5, 0.3, 0.2, 0.1, 0, - 0.1, - 0.3, - 0.8, - 0.9]"
    unfolding scores_sorted_desc assms eleven_sorted by simp
  have "map entry_score (top_positive (make_insights g ps)) = take 5 (map sentiment_score ?s)"
    by (simp add: make_insights_def Let_def entry_scores take_map del: map_map)
  then show "map entry_score (top_positive (make_insights g ps)) = [0.9, 0.7, 0.5, 0.3, 0.2]"
    unfolding sc by simp
  have "map entry_score (top_negative (make_insights g ps))
          = drop (length ps - 5) (map sentiment_score ?s)"
    by (simp add: make_insights_def Let_def entry_scores drop_map del: map_map)
  then show "map entry_score (top_negative (make_insights g ps)) = [0.0, - 0.1, - 0.3, - 0.8, - 0.9]"
    unfolding sc len by simp
  have "avg_sentiment (make_insights g ps) = sum_list (map sentiment_score ps) / real (length ps)"
    by (simp add: make_insights_def Let_def)
  then show "avg_sentiment (make_insights g ps)
           = (0.9 + 0.5 + - 0.8 + 0.1 + - 0.9 + 0.0 + 0.3 + - 0.3 + 0.7 + - 0.1 + 0.2) / 11"
    unfolding assms len by simp
  show "iid (make_insights g ps) = ''latest''"
    by (simp add: make_insights_def Let_def)
qed

lemma process_doc_insights: "insights_col (fst (process_doc L W d st)) = insights_col st"
proof (cases "process_doc L W d st")
  case (Pair st' r)
  then show ?thesis
    using process_doc_Inr [of L W d st st'] process_doc_Inl [of L W d st st']
    by (cases r) auto
qed

lemma process_docs_insights:
  "insights_col (fst (process_docs L W ds st n acc)) = insights_col st"
proof (induction ds arbitrary: st n acc)
  case Nil
  show ?case by simp
next
  case (Cons d ds)
  obtain st' r where pd: "process_doc L W d st = (st', r)"
    by (cases "process_doc L W d st")
  have step: "insights_col st' = insights_col st"
    using process_doc_insights [of L W d st] by (simp add: pd)
  show ?case
  proof (cases r)
    case (Inl e)
    then show ?thesis using step by (simp add: pd)
  next
    case (Inr p)
    then show ?thesis using step Cons.IH [of st' "n + 1" "acc @ [p]"] by (simp add: pd)
  qed
qed

lemma process_batch_insights:
  assumes "\<not> find_fails W" and "\<not> replace_fails W"
    and "snd (process_docs L W (select_batch (raw_col st))
                (st\<lparr>trace := trace st @ [EvFind True]\<rparr>) 0 []) = Inr (n, all_proc)"
    and "all_proc \<noteq> []"
  shows "\<exists>t. insights_col (process_batch L W st)
           = replace_first (\<lambda>x. iid x = ''latest'') (make_insights (isoformat L t) all_proc)
               (insights_col st)"
proof -
  let ?st0 = "st\<lparr>trace := trace st @ [EvFind True]\<rparr>"
  obtain st1 where pd: "process_docs L W (select_batch (raw_col st)) ?st0 0 []
                          = (st1, Inr (n, all_proc))"
    using assms(3) by (cases "process_docs L W (select_batch (raw_col st)) ?st0 0 []") simp
  have "insights_col st1 = insights_col ?st0"
    using process_docs_insights [of L W "select_batch (raw_col st)" ?st0 0 "[]"] by (simp add: pd)
  then have "insights_col (process_batch L W st)
          = replace_first (\<lambda>x. iid x = ''latest'')
              (make_insights (isoformat L (clock W (ticks st1))) all_proc) (insights_col st)"
    using assms(1,2,4) by (simp add: process_batch_def pd Let_def)
  then show ?thesis by blast
qed

lemma select_eleven: "select_batch (raw_col eleven_state) = raw_col eleven_state"
  by (simp add: eleven_state_def state_of_def select_batch_def unprocessed_def ingested_key_def
      raw_of_def)

lemma process_raw_of:
  assumes "analyze_product demo_lib (raw_of i t) = Inr (s, l)"
  shows "process_doc demo_lib quiet_world (raw_of i t) st =
     (st\<lparr>ticks := ticks st + 2,
         proc_col := (proc_col st)(i \<mapsto>
            \<lparr>product_id = i, title = VStr t, category = VNone, price = 0, avg_rating = VNone,
             rating_count = VNone, sentiment_score = s, sentiment_label = l,
             last_processed = ''T'', timestamp = int (ticks st) + 1\<rparr>),
         raw_col := mark_processed (VInt i) (int (ticks st) + 1) (raw_col st),
         trace := trace st @ [EvUpsert i True, EvMark (VInt i) True]\<rparr>,
      Inr \<lparr>product_id = i, title = VStr t, category = VNone, price = 0, avg_rating = VNone,
           rating_count = VNone, sentiment_score = s, sentiment_label = l,
           last_processed = ''T'', timestamp = int (ticks st) + 1\<rparr>)"
proof -
  let ?p = "\<lparr>product_id = i, title = VStr t, category = VNone, price = 0, avg_rating = VNone,
           rating_count = VNone, sentiment_score = s, sentiment_label = l,
           last_processed = ''T'', timestamp = int (ticks st) + 1\<rparr>"
  have c: "int (clock quiet_world (ticks st + 1) div 1000) = int (ticks st) + 1"
    "isoformat demo_lib (clock quiet_world (ticks st)) = ''T''"
    by (simp_all add: quiet_world_def demo_lib_def)
  have m: "make_proc_doc demo_lib (raw_of i t) i s l (isoformat demo_lib (clock quiet_world (ticks st)))
      (int (clock quiet_world (ticks st + 1) div 1000)) = Inr ?p"
    unfolding c by (simp add: make_proc_doc_def raw_of_def doc_get_def py_or_def rating_get_def)
  have w: "\<not> upsert_fails quiet_world (raw_of i t)" "\<not> mark_fails quiet_world (raw_of i t)"
    by (simp_all add: quiet_world_def)
  have o: "doc_get (raw_of i t) ''_id'' = VInt i"
    by (simp add: raw_of_def doc_get_def)
  note process_doc_success [OF source_id_raw_of assms m w(1), unfolded c o]
  then show ?thesis
    using w(2) by simp
qed

lemma analyze_eleven:
  "analyze_product demo_lib (raw_of 2 ''b'') = Inr (0.5, ''positive'')"
  "analyze_product demo_lib (raw_of 3 ''c'') = Inr (- 0.8, ''negative'')"
  "analyze_product demo_lib (raw_of 4 ''d'') = Inr (0.1, ''positive'')"
  "analyze_product demo_lib (raw_of 5 ''e'') = Inr (- 0.9, ''negative'')"
  "analyze_product demo_lib (raw_of 6 ''f'') = Inr (0.0, ''neutral'')"
  "analyze_product demo_lib (raw_of 7 ''g'') = Inr (0.3, ''positive'')"
  "analyze_product demo_lib (raw_of 8 ''h'') = Inr (- 0.3, ''negative'')"
  "analyze_product demo_lib (raw_of 9 ''i'') = Inr (0.7, ''positive'')"
  "analyze_product demo_lib (raw_of 10 ''j'') = Inr (- 0.1, ''negative'')"
  "analyze_product demo_lib (raw_of 11 ''k'') = Inr (0.2, ''positive'')"
  by (simp_all add: analyze_product_def raw_of_def demo_lib_def demo_scores_def doc_get_def
      py_or_def)

lemma process_eleven:
  "snd (process_docs demo_lib quiet_world (raw_col eleven_state)
          (eleven_state\<lparr>trace := trace eleven_state @ [EvFind True]\<rparr>) 0 []) = Inr (11, eleven_procs)"
proof -
  have r: "raw_col eleven_state =
     [raw_of 1 ''a'', raw_of 2 ''b'', raw_of 3 ''c'', raw_of 4 ''d'', raw_of 5 ''e'',
      raw_of 6 ''f'', raw_of 7 ''g'', raw_of 8 ''h'', raw_of 9 ''i'', raw_of 10 ''j'',
      raw_of 11 ''k'']"
    and t: "ticks (eleven_state\<lparr>trace := trace eleven_state @ [EvFind True]\<rparr>) = 0"
    by (simp_all add: eleven_state_def state_of_def)
  show ?thesis
    unfolding r
    by (simp add: process_raw_of [OF analyze_a] process_raw_of [OF analyze_eleven(1)]
        process_raw_of [OF analyze_eleven(2)] process_raw_of [OF analyze_eleven(3)]
        process_raw_of [OF analyze_eleven(4)] process_raw_of [OF analyze_eleven(5)]
        process_raw_of [OF analyze_eleven(6)] process_raw_of [OF analyze_eleven(7)]
        process_raw_of [OF analyze_eleven(8)] process_raw_of [OF analyze_eleven(9)]
        process_raw_of [OF analyze_eleven(10)] t eleven_procs_def proc_of_def)
qed

lemma eleven_scores:
  "map sentiment_score eleven_procs = [0.9, 0.5, - 0.8, 0.1, - 0.9, 0.0, 0.3, - 0.3, 0.7, - 0.1, 0.2]"
  by (simp add: eleven_procs_def proc_of_def)

lemma quiet_world_ok: "\<not> find_fails quiet_world" "\<not> replace_fails quiet_world"
  by (simp_all add: quiet_world_def)

text \<open>
  C1, as amended. For every cycle whose batch yields the eleven scores
  0.9, 0.5, -0.8, 0.1, -0.9, 0.0, 0.3, -0.3, 0.7, -0.1, 0.2 (no query or snapshot write
  failing), the snapshot with id \<open>latest\<close> has as \<open>top_positive\<close> the five largest scores
  in descending order, 0.9, 0.7, 0.5, 0.3, 0.2, as \<open>top_negative\<close> the five smallest
  scores in the order of the descending sort, 0.0, -0.1, -0.3, -0.8, -0.9 (the most
  negative last), and as \<open>avg_sentiment\<close> the mean of the eleven values.
\<close>

theorem insights_of_eleven_scores:
  assumes "\<not> find_fails W" and "\<not> replace_fails W"
    and "snd (process_docs L W (select_batch (raw_col st))
                (st\<lparr>trace := trace st @ [EvFind True]\<rparr>) 0 []) = Inr (n, all_proc)"
    and "map sentiment_score all_proc
           = [0.9, 0.5, - 0.8, 0.1, - 0.9, 0.0, 0.3, - 0.3, 0.7, - 0.1, 0.2]"
  shows "\<exists>snap. find_one (\<lambda>x. iid x = ''latest'') (insights_col (process_batch L W st)) = Some snap
           \<and> map entry_score (top_positive snap) = [0.9, 0.7, 0.5, 0.3, 0.2]
           \<and> map entry_score (top_negative snap) = [0.0, - 0.1, - 0.3, - 0.8, - 0.9]
           \<and> avg_sentiment snap
               = (0.9 + 0.5 + - 0.8 + 0.1 + - 0.9 + 0.0 + 0.3 + - 0.3 + 0.7 + - 0.1 + 0.2) / 11"
proof -
  obtain st1 where pd: "process_docs L W (select_batch (raw_col st))
                (st\<lparr>trace := trace st @ [EvFind True]\<rparr>) 0 [] = (st1, Inr (n, all_proc))"
    using assms(3) by (cases "process_docs L W (select_batch (raw_col st))
                (st\<lparr>trace := trace st @ [EvFind True]\<rparr>) 0 []") simp
  have ne: "all_proc \<noteq> []"
    using assms(4) by auto
  let ?snap = "make_insights (isoformat L (clock W (ticks st1))) all_proc"
  have "insights_col (process_batch L W st)
          = replace_first (\<lambda>x. iid x = ''latest'') ?snap (insights_col st1)"
    using assms(1,2) ne by (simp add: process_batch_def pd Let_def)
  then have "find_one (\<lambda>x. iid x = ''latest'') (insights_col (process_batch L W st)) = Some ?snap"
    by (simp add: find_replace_first make_insights_eleven(4) [OF assms(4)])
  then show ?thesis
    using make_insights_eleven(1-3) [OF assms(4), of "isoformat L (clock W (ticks st1))"]
    by (intro exI [of _ ?snap]) (simp only: simp_thms)
qed

theorem insights_of_eleven_scores_witness:
  "\<not> find_fails quiet_world \<and> \<not> replace_fails quiet_world
   \<and> snd (process_docs demo_lib quiet_world (select_batch (raw_col eleven_state))
            (eleven_state\<lparr>trace := trace eleven_state @ [EvFind True]\<rparr>) 0 [])
       = Inr (11, eleven_procs)
   \<and> map sentiment_score eleven_procs
       = [0.9, 0.5, - 0.8, 0.1, - 0.9, 0.0, 0.3, - 0.3, 0.7, - 0.1, 0.2]
   \<and> (\<exists>snap. find_one (\<lambda>x. iid x = ''latest'')
                (insights_col (process_batch demo_lib quiet_world eleven_state)) = Some snap
           \<and> map entry_score (top_positive snap) = [0.9, 0.7, 0.5, 0.3, 0.2]
           \<and> map entry_score (top_negative snap) = [0.0, - 0.1, - 0.3, - 0.8, - 0.9]
           \<and> avg_sentiment snap
               = (0.9 + 0.5 + - 0.8 + 0.1 + - 0.9 + 0.0 + 0.3 + - 0.3 + 0.7 + - 0.1 + 0.2) / 11)"
proof -
  have p: "snd (process_docs demo_lib quiet_world (select_batch (raw_col eleven_state))
            (eleven_state\<lparr>trace := trace eleven_state @ [EvFind True]\<rparr>) 0 [])
       = Inr (11, eleven_procs)"
    unfolding select_eleven by (rule process_eleven)
  from insights_of_eleven_scores [OF quiet_world_ok p eleven_scores] quiet_world_ok p eleven_scores
  show ?thesis by (simp only: simp_thms)
qed

text \<open>
  C1 as stated fails: for the batch of eleven documents with these scores,
  \<open>top_negative\<close> is the tail of the descending sort, so it starts with 0.0 and ends
  with -0.9; it is not the ascending list that starts with -0.9.
\<close>

theorem top_negative_counterexample:
  "map (map entry_score \<circ> top_negative)
       (insights_col (process_batch demo_lib quiet_world eleven_state))
     = [[0, - 0.1, - 0.3, - 0.8, - 0.9]]
   \<and> map (map entry_score \<circ> top_negative)
       (insights_col (process_batch demo_lib quiet_world eleven_state))
     \<noteq> [[- 0.9, - 0.8, - 0.3, - 0.1, 0]]"
proof -
  have p: "snd (process_docs demo_lib quiet_world (select_batch (raw_col eleven_state))
            (eleven_state\<lparr>trace := trace eleven_state @ [EvFind True]\<rparr>) 0 [])
       = Inr (11, eleven_procs)"
    unfolding select_eleven by (rule process_eleven)
  have ne: "eleven_procs \<noteq> []"
    by (simp add: eleven_procs_def)
  have e: "insights_col eleven_state = []"
    by (simp add: eleven_state_def state_of_def)
  from process_batch_insights [OF quiet_world_ok p ne] obtain t where
    "insights_col (process_batch demo_lib quiet_world eleven_state)
       = [make_insights (isoformat demo_lib t) eleven_procs]"
    by (auto simp: e)
  then have "map (map entry_score \<circ> top_negative)
       (insights_col (process_batch demo_lib quiet_world eleven_state))
     = [[0, - 0.1, - 0.3, - 0.8, - 0.9]]"
    by (simp add: make_insights_eleven(2) [OF eleven_scores])
  then show ?thesis by simp
qed

section \<open>A failed mark\<close>















end
